theory Spec2Isabelle
  imports Complex_Main "HOL-Library.Word"
begin

section \<open>The contact form of \<^verbatim>\<open>components/contact-form.tsx\<close>\<close>

text \<open>
  The component \<^verbatim>\<open>ContactForm\<close> holds three pieces of React state
  (\<^verbatim>\<open>isSubmitting\<close>, \<^verbatim>\<open>isSubmitted\<close>, \<^verbatim>\<open>fullReport\<close>), a form managed by
  \<^verbatim>\<open>useForm\<close> with the resolver of \<^verbatim>\<open>formSchema\<close>, and three handlers:
  \<^verbatim>\<open>onSubmit\<close>, \<^verbatim>\<open>handleDownloadPDF\<close> and the click handler of the copy button.
  The model is a state record and one function per handler; an asynchronous handler is
  cut at each \<^verbatim>\<open>await\<close>, and the settling of the awaited promise is an event. What the
  handlers do to their surroundings (calls of \<^verbatim>\<open>fetch\<close>, \<^verbatim>\<open>toast\<close>, \<^verbatim>\<open>setTimeout\<close>,
  \<^verbatim>\<open>navigator.clipboard.writeText\<close>, \<^verbatim>\<open>html2canvas\<close>, \<^verbatim>\<open>pdf.save\<close>) is kept as logs
  in the state.
\<close>

subsection \<open>JavaScript values\<close>

text \<open>A JavaScript string is a sequence of UTF-16 code units; \<^verbatim>\<open>.length\<close> counts them.\<close>

type_synonym jsstring = "16 word list"

text \<open>The code units of an ASCII literal of the source.\<close>

definition lit :: "string \<Rightarrow> jsstring" where
  "lit cs = map (\<lambda>c. word_of_nat (of_char c)) cs"

text \<open>
  The values that \<^verbatim>\<open>response.json()\<close> can resolve with, and \<^verbatim>\<open>undefined\<close>. A number is
  a finite double, given by its exact value; an object is the list of its own
  properties, every key once.
\<close>

datatype jsval =
    Undefined
  | Null
  | JBool bool
  | JNum rat
  | JStr jsstring
  | JArr "jsval list"
  | JObj "(jsstring \<times> jsval) list"

text \<open>Truthiness, as used by \<^verbatim>\<open>fullReport && (...)\<close> and \<^verbatim>\<open>fullReport || ''\<close>.\<close>

fun truthy :: "jsval \<Rightarrow> bool" where
  "truthy Undefined = False"
| "truthy Null = False"
| "truthy (JBool b) = b"
| "truthy (JNum x) = (x \<noteq> 0)"
| "truthy (JStr s) = (s \<noteq> [])"
| "truthy (JArr xs) = True"
| "truthy (JObj kvs) = True"

definition js_or :: "jsval \<Rightarrow> jsval \<Rightarrow> jsval" where
  "js_or a b = (if truthy a then a else b)"

datatype exn =
    FetchFailed
  | Error string
  | JsonFailed
  | TypeError
  | NotAllowedError
  | CaptureFailed

text \<open>
  The expression \<^verbatim>\<open>result.full_report\<close>: a TypeError on \<^verbatim>\<open>null\<close> and \<^verbatim>\<open>undefined\<close>,
  the own property of an object, and \<^verbatim>\<open>undefined\<close> on every other value (no prototype
  of a boolean, number, string or array has a property of that name).
\<close>

fun get_full_report :: "jsval \<Rightarrow> exn + jsval" where
  "get_full_report Undefined = Inl TypeError"
| "get_full_report Null = Inl TypeError"
| "get_full_report (JObj kvs) =
     (case map_of kvs (lit ''full_report'') of None \<Rightarrow> Inr Undefined | Some v \<Rightarrow> Inr v)"
| "get_full_report v = Inr Undefined"

subsection \<open>The form schema\<close>

datatype field = Name | Email | Phone | Website

text \<open>\<^verbatim>\<open>type FormData = z.infer<typeof formSchema>\<close>: the website is optional.\<close>

record FormData =
  name :: jsstring
  email :: jsstring
  phone :: jsstring
  website :: "jsstring option"

text \<open>
  The checks \<^verbatim>\<open>.email()\<close> and \<^verbatim>\<open>.url()\<close> belong to the validation library, and
  the check of an input of \<^verbatim>\<open>type="email"\<close> to the browser; the grammars they accept
  are parameters of the model.
\<close>

record grammar =
  is_email :: "jsstring \<Rightarrow> bool"
  is_url :: "jsstring \<Rightarrow> bool"
  is_browser_email :: "jsstring \<Rightarrow> bool"

definition check_name :: "jsstring \<Rightarrow> string option" where
  "check_name v =
     (if length v < 2 then Some ''Name must be at least 2 characters'' else None)"

definition check_email :: "grammar \<Rightarrow> jsstring \<Rightarrow> string option" where
  "check_email G v =
     (if is_email G v then None else Some ''Please enter a valid email address'')"

definition check_phone :: "jsstring \<Rightarrow> string option" where
  "check_phone v =
     (if length v < 10 then Some ''Please enter a valid phone number'' else None)"

text \<open>
  \<^verbatim>\<open>z.string().url(...).optional().or(z.literal(''))\<close>: the first alternative accepts
  \<^verbatim>\<open>undefined\<close> and every string that is a URL, the second the empty string; a string
  that neither accepts carries the message of the URL check.
\<close>

definition check_website :: "grammar \<Rightarrow> jsstring option \<Rightarrow> string option" where
  "check_website G w =
     (case w of
        None \<Rightarrow> None
      | Some v \<Rightarrow>
          if is_url G v then None
          else if v = [] then None
          else Some ''Please enter a valid website URL'')"

definition schema_errors :: "grammar \<Rightarrow> FormData \<Rightarrow> field \<rightharpoonup> string" where
  "schema_errors G d =
     (\<lambda>f. case f of
        Name \<Rightarrow> check_name (name d)
      | Email \<Rightarrow> check_email G (email d)
      | Phone \<Rightarrow> check_phone (phone d)
      | Website \<Rightarrow> check_website G (website d))"

definition schema_ok :: "grammar \<Rightarrow> FormData \<Rightarrow> bool" where
  "schema_ok G d \<longleftrightarrow>
     check_name (name d) = None \<and> check_email G (email d) = None \<and>
     check_phone (phone d) = None \<and> check_website G (website d) = None"

text \<open>The resolver: the parsed data, or the first message of every field that fails.\<close>

definition formSchema :: "grammar \<Rightarrow> FormData \<Rightarrow> (field \<rightharpoonup> string) + FormData" where
  "formSchema G d = (if schema_ok G d then Inr d else Inl (schema_errors G d))"

subsection \<open>The state of the component and of its surroundings\<close>

record toast =
  title :: string
  description :: string
  variant :: "string option"

record request =
  url :: string
  http_method :: string
  headers :: "(string \<times> string) list"
  body :: jsval

text \<open>
  Where a call of \<^verbatim>\<open>onSubmit\<close> stands: suspended at \<^verbatim>\<open>await fetch(...)\<close>, suspended at
  \<^verbatim>\<open>await response.json()\<close>, or finished.
\<close>

datatype cont = AwaitFetch | AwaitJson | Finished

text \<open>The element with id \<^verbatim>\<open>report-section\<close>, by the report it renders.\<close>

datatype element = ReportSection jsval

text \<open>
  \<^verbatim>\<open>inputs\<close> are the values of the registered inputs, \<^verbatim>\<open>errors\<close> is
  \<^verbatim>\<open>formState.errors\<close> and \<^verbatim>\<open>formState_isSubmitted\<close> is \<^verbatim>\<open>formState.isSubmitted\<close> of
  the form library, which tells it whether to validate an input again when it
  changes. \<^verbatim>\<open>toasts\<close>, \<^verbatim>\<open>requests\<close>,
  \<^verbatim>\<open>writeText_calls\<close>, \<^verbatim>\<open>captures\<close> and \<^verbatim>\<open>downloads\<close> log the calls of \<^verbatim>\<open>toast\<close>,
  \<^verbatim>\<open>fetch\<close>, \<^verbatim>\<open>writeText\<close>, \<^verbatim>\<open>html2canvas\<close> and \<^verbatim>\<open>pdf.save\<close>. The \<open>i\<close>-th call of
  \<^verbatim>\<open>onSubmit\<close> stands at \<open>calls ! i\<close> and issued \<open>requests ! i\<close>. \<^verbatim>\<open>timers\<close> holds the
  delay of every pending \<^verbatim>\<open>setTimeout\<close>; the callback is always
  \<^verbatim>\<open>() => setIsSubmitted(false)\<close>. \<^verbatim>\<open>unhandled\<close> collects what a handler throws to its
  caller.
\<close>

record state =
  isSubmitting :: bool
  isSubmitted :: bool
  fullReport :: jsval
  inputs :: "field \<Rightarrow> jsstring"
  errors :: "field \<rightharpoonup> string"
  formState_isSubmitted :: bool
  toasts :: "toast list"
  requests :: "request list"
  calls :: "cont list"
  timers :: "nat list"
  writeText_calls :: "jsval list"
  clipboard :: "jsval option"
  captures :: "element list"
  downloads :: "(string \<times> element) list"
  unhandled :: "exn list"

definition init :: state where
  "init = \<lparr> isSubmitting = False, isSubmitted = False, fullReport = Null,
     inputs = (\<lambda>f. []), errors = Map.empty, formState_isSubmitted = False,
     toasts = [], requests = [], calls = [],
     timers = [], writeText_calls = [], clipboard = None, captures = [], downloads = [],
     unhandled = [] \<rparr>"

text \<open>The label of the submit button (lines 206 to 221).\<close>

datatype label = Sending | MessageSent | SendMessage

definition button_label :: "state \<Rightarrow> label" where
  "button_label s =
     (if isSubmitting s then Sending else if isSubmitted s then MessageSent else SendMessage)"

text \<open>\<^verbatim>\<open>document.getElementById('report-section')\<close>: rendered under \<^verbatim>\<open>fullReport && (...)\<close>.\<close>

definition getElementById :: "state \<Rightarrow> element option" where
  "getElementById s =
     (if truthy (fullReport s) then Some (ReportSection (fullReport s)) else None)"

subsection \<open>handleDownloadPDF\<close>

text \<open>
  \<open>captured\<close> tells whether the promise of \<^verbatim>\<open>html2canvas\<close> fulfils. The saved document
  is given by its file name and the element captured; the scaling of the image to the
  page width is floating-point arithmetic and is left out.
\<close>

definition handleDownloadPDF :: "bool \<Rightarrow> element option \<Rightarrow> state \<Rightarrow> state" where
  "handleDownloadPDF captured element s =
     (case element of
        None \<Rightarrow> s
      | Some el \<Rightarrow>
          let s1 = s\<lparr>captures := captures s @ [el]\<rparr>
          in if captured
             then s1\<lparr>downloads := downloads s1 @ [(''seo-report.pdf'', el)]\<rparr>
             else s1\<lparr>unhandled := unhandled s1 @ [CaptureFailed]\<rparr>)"

subsection \<open>onSubmit\<close>

definition endpoint :: string where
  "endpoint = ''https://seoreport-backend.onrender.com/api/submit/''"

text \<open>
  \<^verbatim>\<open>JSON.stringify(data)\<close>, as the JSON document it writes: the keys in the order of the
  schema, a key whose value is \<^verbatim>\<open>undefined\<close> left out.
\<close>

definition JSON_stringify :: "FormData \<Rightarrow> jsval" where
  "JSON_stringify d =
     JObj ([(lit ''name'', JStr (name d)), (lit ''email'', JStr (email d)),
            (lit ''phone'', JStr (phone d))] @
           (case website d of None \<Rightarrow> [] | Some w \<Rightarrow> [(lit ''website'', JStr w)]))"

definition success_toast :: toast where
  "success_toast = \<lparr> title = ''Success!'',
     description = ''Report generated successfully!'', variant = None \<rparr>"

definition error_toast :: toast where
  "error_toast = \<lparr> title = ''Error'',
     description = ''Failed to generate report. Please try again.'',
     variant = Some ''destructive'' \<rparr>"

definition copied_toast :: toast where
  "copied_toast = \<lparr> title = ''Copied!'',
     description = ''Report copied to clipboard.'', variant = None \<rparr>"

text \<open>Lines 58 to 68: the handler up to its first \<^verbatim>\<open>await\<close>.\<close>

definition onSubmit :: "FormData \<Rightarrow> state \<Rightarrow> state" where
  "onSubmit d s =
     s\<lparr> isSubmitting := True,
        fullReport := Null,
        requests := requests s @
          [\<lparr> url = endpoint, http_method = ''POST'',
             headers = [(''Content-Type'', ''application/json'')],
             body = JSON_stringify d \<rparr>],
        calls := calls s @ [AwaitFetch] \<rparr>"

text \<open>How a piece of the \<^verbatim>\<open>try\<close> block ends: at the next \<^verbatim>\<open>await\<close>, at its end, or by a throw.\<close>

datatype progress = Awaiting cont | Returned | Thrown exn

text \<open>\<^verbatim>\<open>response.ok\<close>: the status lies in the range 200 to 299.\<close>

definition response_ok :: "nat \<Rightarrow> bool" where
  "response_ok status \<longleftrightarrow> 200 \<le> status \<and> status \<le> 299"

text \<open>
  Lines 70 to 74, entered when the promise of \<^verbatim>\<open>fetch\<close> settles, with the rejection or
  with the status of the response.
\<close>

definition try_after_fetch :: "exn + nat \<Rightarrow> state \<Rightarrow> state \<times> progress" where
  "try_after_fetch r s =
     (case r of
        Inl e \<Rightarrow> (s, Thrown e)
      | Inr status \<Rightarrow>
          if \<not> response_ok status then (s, Thrown (Error ''Something went wrong!''))
          else (s, Awaiting AwaitJson))"

text \<open>
  \<^verbatim>\<open>reset()\<close>: the inputs go back to their default, the empty string; no error is
  left, and the form counts as not submitted.
\<close>

definition reset :: "state \<Rightarrow> state" where
  "reset s = s\<lparr> inputs := (\<lambda>f. []), errors := Map.empty, formState_isSubmitted := False \<rparr>"

text \<open>Lines 74 to 85, entered when the promise of \<^verbatim>\<open>response.json()\<close> settles.\<close>

definition try_after_json :: "exn + jsval \<Rightarrow> state \<Rightarrow> state \<times> progress" where
  "try_after_json r s =
     (case r of
        Inl e \<Rightarrow> (s, Thrown e)
      | Inr result \<Rightarrow>
          (case get_full_report result of
             Inl e \<Rightarrow> (s, Thrown e)
           | Inr v \<Rightarrow>
               let s1 = s\<lparr>fullReport := v\<rparr>;
                   s2 = s1\<lparr>toasts := toasts s1 @ [success_toast]\<rparr>;
                   s3 = s2\<lparr>isSubmitted := True\<rparr>;
                   s4 = reset s3;
                   s5 = s4\<lparr>timers := timers s4 @ [3000]\<rparr>
               in (s5, Returned)))"

definition catch_block :: "exn \<Rightarrow> state \<Rightarrow> state" where
  "catch_block e s = s\<lparr>toasts := toasts s @ [error_toast]\<rparr>"

definition finally_block :: "state \<Rightarrow> state" where
  "finally_block s = s\<lparr>isSubmitting := False\<rparr>"

text \<open>
  \<^verbatim>\<open>try { ... } catch (error) { ... } finally { ... }\<close> around a piece of the body: a
  piece that stops at an \<^verbatim>\<open>await\<close> leaves the block pending; neither the \<^verbatim>\<open>catch\<close>
  block nor the \<^verbatim>\<open>finally\<close> block throws.
\<close>

fun catch_finally :: "state \<times> progress \<Rightarrow> state \<times> progress" where
  "catch_finally (s, Awaiting k) = (s, Awaiting k)"
| "catch_finally (s, Returned) = (finally_block s, Returned)"
| "catch_finally (s, Thrown e) = (finally_block (catch_block e s), Returned)"

text \<open>
  Call \<open>i\<close> of \<^verbatim>\<open>onSubmit\<close> runs its next piece. When the call ends, the
  \<^verbatim>\<open>handleSubmit\<close> of the form library, which awaited it, marks the form as submitted.
\<close>

definition resume :: "nat \<Rightarrow> (state \<Rightarrow> state \<times> progress) \<Rightarrow> state \<Rightarrow> state" where
  "resume i piece s =
     (case catch_finally (piece s) of
        (s', Awaiting k) \<Rightarrow> s'\<lparr>calls := (calls s')[i := k]\<rparr>
      | (s', Returned) \<Rightarrow>
          s'\<lparr>calls := (calls s')[i := Finished], formState_isSubmitted := True\<rparr>
      | (s', Thrown e) \<Rightarrow>
          s'\<lparr>calls := (calls s')[i := Finished], formState_isSubmitted := True,
             unhandled := unhandled s' @ [e]\<rparr>)"

subsection \<open>handleSubmit\<close>

text \<open>The values the form hands to the resolver: every registered input, as a string.\<close>

definition getValues :: "state \<Rightarrow> FormData" where
  "getValues s = \<lparr> name = inputs s Name, email = inputs s Email,
     phone = inputs s Phone, website = Some (inputs s Website) \<rparr>"

text \<open>
  \<^verbatim>\<open>handleSubmit(onSubmit)\<close> (line 128), run on a submit event: the resolver runs; its
  errors replace \<^verbatim>\<open>formState.errors\<close>, and \<^verbatim>\<open>onSubmit\<close> is called with the parsed data
  only when there is none. With errors the form is marked as submitted at once, without
  them when the call of \<^verbatim>\<open>onSubmit\<close> has ended.
\<close>

definition handleSubmit :: "grammar \<Rightarrow> state \<Rightarrow> state" where
  "handleSubmit G s =
     (case formSchema G (getValues s) of
        Inl errs \<Rightarrow> s\<lparr>errors := errs, formState_isSubmitted := True\<rparr>
      | Inr d \<Rightarrow> onSubmit d (s\<lparr>errors := Map.empty\<rparr>))"

text \<open>
  The form is created with the default modes: nothing is validated before the first
  submission, and once the form is marked as submitted a change of an input runs the
  resolver again and sets or removes the error of that input.
\<close>

definition revalidate :: "grammar \<Rightarrow> field \<Rightarrow> state \<Rightarrow> state" where
  "revalidate G f s =
     (if formState_isSubmitted s
      then s\<lparr>errors := (errors s)(f := schema_errors G (getValues s) f)\<rparr>
      else s)"

text \<open>
  The email input has \<^verbatim>\<open>type="email"\<close> (line 173) and the form (line 128) no
  \<^verbatim>\<open>noValidate\<close>: before a submit event the browser checks the value of that input.
  It accepts the empty string, the input not being required, and every address of its
  own grammar; on any other value it reports the input itself and fires no submit
  event. No other input carries a constraint.
\<close>

definition checkValidity :: "grammar \<Rightarrow> state \<Rightarrow> bool" where
  "checkValidity G s \<longleftrightarrow> inputs s Email = [] \<or> is_browser_email G (inputs s Email)"

subsection \<open>The copy button\<close>

text \<open>
  What the host does with \<^verbatim>\<open>navigator.clipboard.writeText\<close>: the promise fulfils, the
  promise rejects (permission denied), or \<^verbatim>\<open>navigator.clipboard\<close> is undefined (the page
  is not in a secure context) and the member access throws.
\<close>

datatype clipboard_outcome = WriteFulfilled | WriteRejected | ClipboardMissing

text \<open>
  Lines 239 to 245. The promise of \<^verbatim>\<open>writeText\<close> is neither awaited nor given a handler,
  so \<^verbatim>\<open>toast\<close> is called whenever \<^verbatim>\<open>writeText\<close> was.
\<close>

definition copy_onClick :: "clipboard_outcome \<Rightarrow> state \<Rightarrow> state" where
  "copy_onClick out s =
     (let t = js_or (fullReport s) (JStr [])
      in case out of
           ClipboardMissing \<Rightarrow> s\<lparr>unhandled := unhandled s @ [TypeError]\<rparr>
         | WriteRejected \<Rightarrow>
             s\<lparr> writeText_calls := writeText_calls s @ [t],
                toasts := toasts s @ [copied_toast],
                unhandled := unhandled s @ [NotAllowedError] \<rparr>
         | WriteFulfilled \<Rightarrow>
             s\<lparr> writeText_calls := writeText_calls s @ [t],
                clipboard := Some t,
                toasts := toasts s @ [copied_toast] \<rparr>)"

subsection \<open>Events\<close>

text \<open>
  What can happen to the mounted component: the user edits an input, triggers a
  submission (a click on the submit button, or the Enter key in an input), clicks one of
  the two buttons of the report section; an awaited promise of call \<open>i\<close> of
  \<^verbatim>\<open>onSubmit\<close> settles; the oldest pending timer fires.
\<close>

datatype event =
    Edit field jsstring
  | SubmitTrigger
  | FetchRejected nat
  | FetchResolved nat nat
  | JsonRejected nat
  | JsonResolved nat jsval
  | TimerFired
  | ClickCopy clipboard_outcome
  | ClickDownload bool

definition awaiting :: "state \<Rightarrow> nat \<Rightarrow> cont \<Rightarrow> bool" where
  "awaiting s i k \<longleftrightarrow> i < length (calls s) \<and> calls s ! i = k"

text \<open>
  The submit button carries \<^verbatim>\<open>disabled={isSubmitting}\<close> (line 203): while it is
  disabled the browser delivers no submit event, and neither does it while the email
  input fails its check. The buttons of the report section
  exist only while the section is rendered. The page is taken to be rendered again
  after every event, before the next one. An event that cannot happen in a state
  leaves it as it is.
\<close>

fun step :: "grammar \<Rightarrow> state \<Rightarrow> event \<Rightarrow> state" where
  "step G s (Edit f v) = revalidate G f (s\<lparr>inputs := (inputs s)(f := v)\<rparr>)"
| "step G s SubmitTrigger =
     (if isSubmitting s then s
      else if \<not> checkValidity G s then s
      else handleSubmit G s)"
| "step G s (FetchRejected i) =
     (if awaiting s i AwaitFetch then resume i (try_after_fetch (Inl FetchFailed)) s else s)"
| "step G s (FetchResolved i status) =
     (if awaiting s i AwaitFetch then resume i (try_after_fetch (Inr status)) s else s)"
| "step G s (JsonRejected i) =
     (if awaiting s i AwaitJson then resume i (try_after_json (Inl JsonFailed)) s else s)"
| "step G s (JsonResolved i result) =
     (if awaiting s i AwaitJson then resume i (try_after_json (Inr result)) s else s)"
| "step G s TimerFired =
     (case timers s of [] \<Rightarrow> s | d # ds \<Rightarrow> s\<lparr>timers := ds, isSubmitted := False\<rparr>)"
| "step G s (ClickCopy out) =
     (if getElementById s = None then s else copy_onClick out s)"
| "step G s (ClickDownload captured) = handleDownloadPDF captured (getElementById s) s"

definition run :: "grammar \<Rightarrow> state \<Rightarrow> event list \<Rightarrow> state" where
  "run G s es = foldl (step G) s es"

text \<open>The calls of \<^verbatim>\<open>onSubmit\<close> that have not finished.\<close>

definition in_flight :: "state \<Rightarrow> nat" where
  "in_flight s = length (filter (\<lambda>c. c \<noteq> Finished) (calls s))"

text \<open>
  What holds of every state the mounted component reaches: a call of \<^verbatim>\<open>onSubmit\<close> is
  unfinished exactly while \<^verbatim>\<open>isSubmitting\<close> is set, and then it is the only one and no
  report is stored; every call has issued one request.
\<close>

definition single_flight :: "state \<Rightarrow> bool" where
  "single_flight s \<longleftrightarrow>
     in_flight s = (if isSubmitting s then 1 else 0) \<and>
     length (requests s) = length (calls s) \<and>
     (isSubmitting s \<longrightarrow> fullReport s = Null)"

subsection \<open>Sample data\<close>

text \<open>
  Grammars to run examples with: for the browser an address is a string with the code
  unit of \<^verbatim>\<open>@\<close> in it, for the schema it has that of \<^verbatim>\<open>.\<close> as well; a URL is a
  string that starts with \<^verbatim>\<open>http\<close>.
\<close>

definition sample_grammar :: grammar where
  "sample_grammar = \<lparr> is_email = (\<lambda>v. 64 \<in> set v \<and> 46 \<in> set v),
     is_url = (\<lambda>v. take 4 v = [104, 116, 116, 112]),
     is_browser_email = (\<lambda>v. 64 \<in> set v) \<rparr>"

definition fill_in :: "event list" where
  "fill_in = [Edit Name (lit ''Al''), Edit Email (lit ''a@b.co''),
     Edit Phone (lit ''0123456789'')]"

definition hello :: jsval where
  "hello = JObj [(lit ''full_report'', JStr (lit ''# Hello''))]"

text \<open>A first submission, answered with status 200 and the body \<^verbatim>\<open>{"full_report": "# Hello"}\<close>.\<close>

definition first_success :: "event list" where
  "first_success = fill_in @ [SubmitTrigger, FetchResolved 0 200, JsonResolved 0 hello]"

section \<open>Properties\<close>

lemmas schema_defs = formSchema_def schema_ok_def schema_errors_def check_name_def
  check_email_def check_phone_def check_website_def getValues_def

lemmas settle_defs = resume_def try_after_fetch_def try_after_json_def catch_block_def
  finally_block_def reset_def awaiting_def Let_def

lemmas sample_defs = run_def fill_in_def first_success_def hello_def sample_grammar_def
  init_def lit_def response_ok_def handleSubmit_def onSubmit_def button_label_def
  getElementById_def checkValidity_def revalidate_def

subsection \<open>What each settled promise does to a pending call\<close>

lemma step_fetch_ok:
  "awaiting s i AwaitFetch \<Longrightarrow> response_ok status \<Longrightarrow>
   step G s (FetchResolved i status) = s\<lparr>calls := (calls s)[i := AwaitJson]\<rparr>"
  by (simp add: resume_def try_after_fetch_def)

lemma step_fetch_failed:
  "awaiting s i AwaitFetch \<Longrightarrow>
   e = FetchRejected i \<or> (e = FetchResolved i status \<and> \<not> response_ok status) \<Longrightarrow>
   step G s e = s\<lparr>toasts := toasts s @ [error_toast], isSubmitting := False,
                   calls := (calls s)[i := Finished], formState_isSubmitted := True\<rparr>"
  by (auto simp: resume_def try_after_fetch_def catch_block_def finally_block_def)

lemma step_json_failed:
  "awaiting s i AwaitJson \<Longrightarrow> e = JsonRejected i \<or> e = JsonResolved i Null \<Longrightarrow>
   step G s e = s\<lparr>toasts := toasts s @ [error_toast], isSubmitting := False,
                   calls := (calls s)[i := Finished], formState_isSubmitted := True\<rparr>"
  by (auto simp: resume_def try_after_json_def catch_block_def finally_block_def)

lemma step_json_ok:
  "awaiting s i AwaitJson \<Longrightarrow> get_full_report result = Inr v \<Longrightarrow>
   step G s (JsonResolved i result) =
     s\<lparr>fullReport := v, toasts := toasts s @ [success_toast], isSubmitted := True,
       inputs := (\<lambda>f. []), errors := Map.empty, timers := timers s @ [3000],
       isSubmitting := False, calls := (calls s)[i := Finished],
       formState_isSubmitted := True\<rparr>"
  by (simp add: resume_def try_after_json_def finally_block_def reset_def Let_def)

subsection \<open>Validation\<close>

text \<open>
  C1, as claimed, fails: with the name \<^verbatim>\<open>A\<close> and the email \<^verbatim>\<open>abc\<close>, which the
  schema and the browser both refuse, a submit trigger issues no request, but no message
  is set for the name or the email either: the browser withholds the submit event.
\<close>

theorem browser_blocks_before_messages:
  "length (inputs (run sample_grammar init [Edit Name (lit ''A''), Edit Email (lit ''abc'')])
      Name) < 2 \<and>
   \<not> is_email sample_grammar
      (inputs (run sample_grammar init [Edit Name (lit ''A''), Edit Email (lit ''abc'')]) Email) \<and>
   errors (run sample_grammar init
      [Edit Name (lit ''A''), Edit Email (lit ''abc''), SubmitTrigger]) Name = None \<and>
   errors (run sample_grammar init
      [Edit Name (lit ''A''), Edit Email (lit ''abc''), SubmitTrigger]) Email = None \<and>
   requests (run sample_grammar init
      [Edit Name (lit ''A''), Edit Email (lit ''abc''), SubmitTrigger]) = []"
  by (simp add: sample_defs)

text \<open>
  C1, amended. When the name is shorter than 2, or the email is not an address of the
  schema, or the phone is shorter than 10, or the website is neither empty nor a URL, a
  submit trigger issues no request and starts no call of \<^verbatim>\<open>onSubmit\<close>. When the
  button is enabled and the browser accepts the value of the email input (it is empty
  or an address of the browser's grammar), the trigger runs \<^verbatim>\<open>handleSubmit\<close>, which
  changes nothing but the state of the form: every offending field carries the message
  of its check, which the component renders under the input. When the browser refuses
  the value of the email input, the trigger changes nothing, and no message of the form
  is set.
\<close>

theorem handleSubmit_blocks_invalid:
  assumes "length (inputs s Name) < 2 \<or> \<not> is_email G (inputs s Email) \<or>
           length (inputs s Phone) < 10 \<or>
           (inputs s Website \<noteq> [] \<and> \<not> is_url G (inputs s Website))"
  shows "requests (step G s SubmitTrigger) = requests s \<and>
         calls (step G s SubmitTrigger) = calls s \<and>
         (\<not> isSubmitting s \<and> checkValidity G s \<longrightarrow>
            step G s SubmitTrigger = handleSubmit G s) \<and>
         (\<not> checkValidity G s \<longrightarrow> step G s SubmitTrigger = s) \<and>
         handleSubmit G s =
           s\<lparr>errors := errors (handleSubmit G s), formState_isSubmitted := True\<rparr> \<and>
         (length (inputs s Name) < 2 \<longrightarrow>
            errors (handleSubmit G s) Name = Some ''Name must be at least 2 characters'') \<and>
         (\<not> is_email G (inputs s Email) \<longrightarrow>
            errors (handleSubmit G s) Email = Some ''Please enter a valid email address'') \<and>
         (length (inputs s Phone) < 10 \<longrightarrow>
            errors (handleSubmit G s) Phone = Some ''Please enter a valid phone number'') \<and>
         (inputs s Website \<noteq> [] \<and> \<not> is_url G (inputs s Website) \<longrightarrow>
            errors (handleSubmit G s) Website = Some ''Please enter a valid website URL'')"
proof -
  have bad: "\<not> schema_ok G (getValues s)"
    using assms by (auto simp: schema_defs)
  then have hs: "handleSubmit G s =
      s\<lparr>errors := schema_errors G (getValues s), formState_isSubmitted := True\<rparr>"
    by (simp add: handleSubmit_def formSchema_def)
  show ?thesis
    by (simp add: hs schema_defs)
qed

theorem handleSubmit_blocks_invalid_witness:
  "(inputs (run sample_grammar init (fill_in @ [Edit Website (lit ''abc'')])) Website \<noteq> [] \<and>
    \<not> is_url sample_grammar
        (inputs (run sample_grammar init (fill_in @ [Edit Website (lit ''abc'')])) Website)) \<and>
   checkValidity sample_grammar
      (run sample_grammar init (fill_in @ [Edit Website (lit ''abc'')])) \<and>
   requests (run sample_grammar init
      (fill_in @ [Edit Website (lit ''abc''), SubmitTrigger])) = [] \<and>
   errors (run sample_grammar init
      (fill_in @ [Edit Website (lit ''abc''), SubmitTrigger])) Website
     = Some ''Please enter a valid website URL''"
  using handleSubmit_blocks_invalid
    [of "run sample_grammar init (fill_in @ [Edit Website (lit ''abc'')])" sample_grammar]
  by (simp add: sample_defs)

subsection \<open>The request\<close>

text \<open>
  C8. On inputs that the schema accepts, \<^verbatim>\<open>handleSubmit\<close> issues one request: a POST to
  the fixed HTTPS endpoint, with the header Content-Type: application/json, whose body
  is the JSON object of the four inputs; an input left empty is sent as the empty
  string. A submit trigger runs \<^verbatim>\<open>handleSubmit\<close> whenever the button is enabled and the
  browser accepts the value of the email input. With data whose website is
  \<^verbatim>\<open>undefined\<close>, \<^verbatim>\<open>onSubmit\<close> sends a body without the key.
\<close>

theorem valid_submission_request:
  assumes "schema_ok G (getValues s)"
  shows "requests (handleSubmit G s) = requests s @
           [\<lparr> url = ''https://seoreport-backend.onrender.com/api/submit/'',
              http_method = ''POST'',
              headers = [(''Content-Type'', ''application/json'')],
              body = JObj [(lit ''name'', JStr (inputs s Name)),
                           (lit ''email'', JStr (inputs s Email)),
                           (lit ''phone'', JStr (inputs s Phone)),
                           (lit ''website'', JStr (inputs s Website))] \<rparr>] \<and>
         (\<not> isSubmitting s \<and> checkValidity G s \<longrightarrow>
            step G s SubmitTrigger = handleSubmit G s) \<and>
         (website d = None \<longrightarrow>
            body (last (requests (onSubmit d s))) =
              JObj [(lit ''name'', JStr (name d)), (lit ''email'', JStr (email d)),
                    (lit ''phone'', JStr (phone d))])"
  using assms
  by (simp add: handleSubmit_def formSchema_def onSubmit_def JSON_stringify_def endpoint_def
      getValues_def)

theorem valid_submission_request_witness:
  "\<not> isSubmitting (run sample_grammar init fill_in) \<and>
   checkValidity sample_grammar (run sample_grammar init fill_in) \<and>
   schema_ok sample_grammar (getValues (run sample_grammar init fill_in)) \<and>
   requests (step sample_grammar (run sample_grammar init fill_in) SubmitTrigger) =
     [\<lparr> url = ''https://seoreport-backend.onrender.com/api/submit/'',
        http_method = ''POST'',
        headers = [(''Content-Type'', ''application/json'')],
        body = JObj [(lit ''name'', JStr (lit ''Al'')),
                     (lit ''email'', JStr (lit ''a@b.co'')),
                     (lit ''phone'', JStr (lit ''0123456789'')),
                     (lit ''website'', JStr [])] \<rparr>]"
  using valid_submission_request [of sample_grammar "run sample_grammar init fill_in"]
  by (simp add: sample_defs schema_defs)

subsection \<open>One submission at a time\<close>

lemma pending_update_finished:
  "i < length xs \<Longrightarrow> xs ! i \<noteq> Finished \<Longrightarrow>
   length (filter (\<lambda>c. c \<noteq> Finished) (xs[i := Finished])) =
     length (filter (\<lambda>c. c \<noteq> Finished) xs) - 1"
proof (induction xs arbitrary: i)
  case Nil
  then show ?case by simp
next
  case (Cons x xs)
  show ?case
  proof (cases i)
    case 0
    with Cons.prems show ?thesis by simp
  next
    case (Suc j)
    with Cons.prems have j: "j < length xs" "xs ! j \<noteq> Finished" by simp_all
    then have "0 < length (filter (\<lambda>c. c \<noteq> Finished) xs)"
      by (metis (mono_tags, lifting) filter_empty_conv length_greater_0_conv nth_mem)
    with Cons.IH [OF j] Suc show ?thesis by simp
  qed
qed

lemma pending_update_pending:
  "i < length xs \<Longrightarrow> xs ! i \<noteq> Finished \<Longrightarrow> k \<noteq> Finished \<Longrightarrow>
   length (filter (\<lambda>c. c \<noteq> Finished) (xs[i := k])) =
     length (filter (\<lambda>c. c \<noteq> Finished) xs)"
proof (induction xs arbitrary: i)
  case Nil
  then show ?case by simp
next
  case (Cons x xs)
  then show ?case by (cases i) simp_all
qed

lemma pending_positive:
  "i < length xs \<Longrightarrow> xs ! i \<noteq> Finished \<Longrightarrow>
   0 < length (filter (\<lambda>c. c \<noteq> Finished) xs)"
  by (metis (mono_tags, lifting) filter_empty_conv length_greater_0_conv nth_mem)

lemma awaiting_in_flight:
  "awaiting s i k \<Longrightarrow> k \<noteq> Finished \<Longrightarrow> 0 < in_flight s"
  unfolding awaiting_def in_flight_def using pending_positive by blast

lemma single_flight_finish:
  assumes "single_flight s" and "awaiting s i k" and "k \<noteq> Finished"
  shows "single_flight (s\<lparr>toasts := ts, isSubmitting := False,
                          calls := (calls s)[i := Finished], formState_isSubmitted := b\<rparr>)"
proof -
  have "0 < in_flight s" using assms(2,3) by (rule awaiting_in_flight)
  with assms(1) have one: "in_flight s = 1"
    by (simp add: single_flight_def split: if_splits)
  have "i < length (calls s)" "calls s ! i \<noteq> Finished"
    using assms(2,3) by (simp_all add: awaiting_def)
  then have "length (filter (\<lambda>c. c \<noteq> Finished) ((calls s)[i := Finished])) = in_flight s - 1"
    unfolding in_flight_def by (rule pending_update_finished)
  with one assms(1) show ?thesis
    by (simp add: single_flight_def in_flight_def)
qed

lemma single_flight_step:
  assumes "single_flight s"
  shows "single_flight (step G s e)"
proof (cases e)
  case (Edit f v)
  with assms show ?thesis
    by (auto simp: single_flight_def in_flight_def revalidate_def split: if_splits)
next
  case SubmitTrigger
  with assms show ?thesis
    by (auto simp: single_flight_def in_flight_def handleSubmit_def onSubmit_def
        split: sum.splits)
next
  case (FetchRejected i)
  show ?thesis
  proof (cases "awaiting s i AwaitFetch")
    case True
    then show ?thesis
      using single_flight_finish [OF assms True] step_fetch_failed [OF True, of e]
      by (simp add: FetchRejected del: step.simps)
  next
    case False
    with assms FetchRejected show ?thesis by simp
  qed
next
  case (FetchResolved i status)
  show ?thesis
  proof (cases "awaiting s i AwaitFetch")
    case True
    show ?thesis
    proof (cases "response_ok status")
      case ok: True
      have "in_flight (s\<lparr>calls := (calls s)[i := AwaitJson]\<rparr>) = in_flight s"
        using True by (simp add: in_flight_def awaiting_def pending_update_pending)
      with assms show ?thesis
        by (simp add: FetchResolved step_fetch_ok [OF True ok] single_flight_def
            del: step.simps)
    next
      case False
      then show ?thesis
        using single_flight_finish [OF assms True]
          step_fetch_failed [OF True, of e status]
        by (simp add: FetchResolved del: step.simps)
    qed
  next
    case False
    with assms FetchResolved show ?thesis by simp
  qed
next
  case (JsonRejected i)
  show ?thesis
  proof (cases "awaiting s i AwaitJson")
    case True
    then show ?thesis
      using single_flight_finish [OF assms True] step_json_failed [OF True, of e]
      by (simp add: JsonRejected del: step.simps)
  next
    case False
    with assms JsonRejected show ?thesis by simp
  qed
next
  case (JsonResolved i result)
  show ?thesis
  proof (cases "awaiting s i AwaitJson")
    case True
    show ?thesis
    proof (cases "get_full_report result")
      case (Inl x)
      have "step G s e = s\<lparr>toasts := toasts s @ [error_toast], isSubmitting := False,
                   calls := (calls s)[i := Finished], formState_isSubmitted := True\<rparr>"
        using True Inl
        by (simp add: JsonResolved resume_def try_after_json_def catch_block_def
            finally_block_def)
      then show ?thesis
        using single_flight_finish [OF assms True] by simp
    next
      case (Inr v)
      have fin: "single_flight (s\<lparr>toasts := toasts s @ [success_toast], isSubmitting := False,
                   calls := (calls s)[i := Finished], formState_isSubmitted := True\<rparr>)"
        using single_flight_finish [OF assms True] by simp
      show ?thesis
        using fin
        by (simp add: JsonResolved step_json_ok [OF True Inr] single_flight_def in_flight_def
            del: step.simps)
    qed
  next
    case False
    with assms JsonResolved show ?thesis by simp
  qed
next
  case TimerFired
  with assms show ?thesis
    by (cases "timers s") (simp_all add: single_flight_def in_flight_def)
next
  case (ClickCopy out)
  with assms show ?thesis
    by (cases out)
      (auto simp: single_flight_def in_flight_def copy_onClick_def Let_def split: if_splits)
next
  case (ClickDownload captured)
  with assms show ?thesis
    by (auto simp: single_flight_def in_flight_def handleDownloadPDF_def Let_def
        split: option.splits if_splits)
qed

lemma single_flight_run:
  "single_flight s \<Longrightarrow> single_flight (run G s es)"
  unfolding run_def by (induction es arbitrary: s) (simp_all add: single_flight_step)

lemma single_flight_init: "single_flight init"
  by (simp add: single_flight_def in_flight_def init_def)




subsection \<open>A successful response\<close>

text \<open>
  C3. When \<^verbatim>\<open>response.json()\<close> of a pending call resolves with an object whose
  \<^verbatim>\<open>full_report\<close> is a string, that string becomes \<^verbatim>\<open>fullReport\<close>, the button shows
  the success label, the success toast is raised, the inputs are cleared, and one timer
  of 3000 ms is set; when a timer fires with no submission running the button shows the
  idle label again. A response with a status from 200 to 299 is what brings a call from
  \<^verbatim>\<open>await fetch\<close> to \<^verbatim>\<open>await response.json()\<close>, and it changes nothing else.
\<close>

theorem success_response_stores_report:
  assumes "awaiting s i AwaitJson"
    and "map_of kvs (lit ''full_report'') = Some (JStr r)"
  shows "fullReport (step G s (JsonResolved i (JObj kvs))) = JStr r \<and>
         button_label (step G s (JsonResolved i (JObj kvs))) = MessageSent \<and>
         toasts (step G s (JsonResolved i (JObj kvs))) = toasts s @ [success_toast] \<and>
         inputs (step G s (JsonResolved i (JObj kvs))) = (\<lambda>f. []) \<and>
         timers (step G s (JsonResolved i (JObj kvs))) = timers s @ [3000] \<and>
         button_label (step G (step G s (JsonResolved i (JObj kvs))) TimerFired) = SendMessage \<and>
         (\<forall>s0 status. awaiting s0 i AwaitFetch \<and> response_ok status \<longrightarrow>
            step G s0 (FetchResolved i status) = s0\<lparr>calls := (calls s0)[i := AwaitJson]\<rparr>) \<and>
         (\<forall>t. timers t \<noteq> [] \<and> \<not> isSubmitting t \<longrightarrow>
            button_label (step G t TimerFired) = SendMessage)"
proof -
  have g: "get_full_report (JObj kvs) = Inr (JStr r)"
    using assms(2) by simp
  note st = step_json_ok [OF assms(1) g, of G]
  have timer: "button_label (step G t TimerFired) = SendMessage"
    if "timers t \<noteq> []" "\<not> isSubmitting t" for t
    using that by (cases "timers t") (simp_all add: button_label_def)
  have fetch: "step G s0 (FetchResolved i status) = s0\<lparr>calls := (calls s0)[i := AwaitJson]\<rparr>"
    if "awaiting s0 i AwaitFetch" "response_ok status" for s0 status
    using that by (rule step_fetch_ok)
  have fired: "button_label (step G (step G s (JsonResolved i (JObj kvs))) TimerFired) = SendMessage"
    unfolding st by (cases "timers s") (simp_all add: button_label_def)
  have now: "fullReport (step G s (JsonResolved i (JObj kvs))) = JStr r \<and>
         button_label (step G s (JsonResolved i (JObj kvs))) = MessageSent \<and>
         toasts (step G s (JsonResolved i (JObj kvs))) = toasts s @ [success_toast] \<and>
         inputs (step G s (JsonResolved i (JObj kvs))) = (\<lambda>f. []) \<and>
         timers (step G s (JsonResolved i (JObj kvs))) = timers s @ [3000]"
    unfolding st by (simp add: button_label_def)
  show ?thesis
    using now fired fetch timer by blast
qed

theorem success_response_stores_report_witness:
  "awaiting (run sample_grammar init (fill_in @ [SubmitTrigger, FetchResolved 0 200])) 0 AwaitJson \<and>
   fullReport (run sample_grammar init first_success) = JStr (lit ''# Hello'') \<and>
   button_label (run sample_grammar init first_success) = MessageSent \<and>
   inputs (run sample_grammar init first_success) Name = [] \<and>
   timers (run sample_grammar init first_success) = [3000] \<and>
   button_label (run sample_grammar init (first_success @ [TimerFired])) = SendMessage"
  using success_response_stores_report
    [of "run sample_grammar init (fill_in @ [SubmitTrigger, FetchResolved 0 200])" 0
        "[(lit ''full_report'', JStr (lit ''# Hello''))]" "lit ''# Hello''" sample_grammar]
  by (simp add: sample_defs schema_defs settle_defs)

subsection \<open>A failed request\<close>

text \<open>
  C4, as claimed, fails: a submission that ends with status 500 leaves \<^verbatim>\<open>fullReport\<close>
  at \<^verbatim>\<open>null\<close> although the submission before it had stored a report, and the button
  still shows the success label of that earlier submission.
\<close>

theorem failed_resubmission_clears_report:
  "fullReport (run sample_grammar init first_success) = JStr (lit ''# Hello'') \<and>
   fullReport (run sample_grammar init
      (first_success @ fill_in @ [SubmitTrigger, FetchResolved 1 500])) = Null \<and>
   button_label (run sample_grammar init
      (first_success @ fill_in @ [SubmitTrigger, FetchResolved 1 500])) = MessageSent"
  by (simp add: sample_defs schema_defs settle_defs)

text \<open>
  C4, amended. \<^verbatim>\<open>onSubmit\<close> sets \<^verbatim>\<open>fullReport\<close> to \<^verbatim>\<open>null\<close> when it starts. When
  the request of a pending call is rejected, or answered with a status outside 200 to
  299, no report is stored before and none after, the error toast is raised, the inputs
  keep their values, \<^verbatim>\<open>isSubmitting\<close> is reset, and \<^verbatim>\<open>isSubmitted\<close> stays as it was:
  the button is enabled and shows the idle label unless an earlier success is still
  marked.
\<close>

theorem failed_submission_outcome:
  assumes "s = run G init es" and "awaiting s i AwaitFetch"
    and "e = FetchRejected i \<or> (e = FetchResolved i status \<and> \<not> response_ok status)"
  shows "fullReport s = Null \<and>
         fullReport (step G s e) = Null \<and>
         toasts (step G s e) = toasts s @ [error_toast] \<and>
         inputs (step G s e) = inputs s \<and>
         \<not> isSubmitting (step G s e) \<and>
         isSubmitted (step G s e) = isSubmitted s \<and>
         button_label (step G s e) = (if isSubmitted s then MessageSent else SendMessage) \<and>
         (\<forall>d s0. fullReport (onSubmit d s0) = Null)"
proof -
  have inv: "single_flight s"
    unfolding assms(1) using single_flight_init by (rule single_flight_run)
  have "0 < in_flight s"
    using assms(2) by (rule awaiting_in_flight) simp
  with inv have null: "fullReport s = Null"
    by (simp add: single_flight_def split: if_splits)
  note st = step_fetch_failed [OF assms(2,3), of G]
  show ?thesis
    unfolding st using null by (simp add: button_label_def onSubmit_def)
qed

theorem failed_submission_outcome_witness:
  "awaiting (run sample_grammar init (first_success @ fill_in @ [SubmitTrigger])) 1 AwaitFetch \<and>
   \<not> response_ok 500 \<and>
   fullReport (run sample_grammar init
      (first_success @ fill_in @ [SubmitTrigger, FetchResolved 1 500])) = Null \<and>
   toasts (run sample_grammar init
      (first_success @ fill_in @ [SubmitTrigger, FetchResolved 1 500]))
     = [success_toast, error_toast] \<and>
   inputs (run sample_grammar init
      (first_success @ fill_in @ [SubmitTrigger, FetchResolved 1 500])) Name = lit ''Al'' \<and>
   \<not> isSubmitting (run sample_grammar init
      (first_success @ fill_in @ [SubmitTrigger, FetchResolved 1 500]))"
  using failed_submission_outcome
    [of "run sample_grammar init (first_success @ fill_in @ [SubmitTrigger])" sample_grammar
        "first_success @ fill_in @ [SubmitTrigger]" 1 "FetchResolved 1 500" 500]
  by (simp add: sample_defs schema_defs settle_defs)

subsection \<open>A response of another shape\<close>

text \<open>
  C5, as claimed, fails: a response with status 200 and the body \<^verbatim>\<open>{}\<close> raises the
  success toast, shows the success label and clears the inputs; the report stored is
  \<^verbatim>\<open>undefined\<close>.
\<close>

theorem missing_full_report_takes_success_path:
  "toasts (run sample_grammar init
      (fill_in @ [SubmitTrigger, FetchResolved 0 200, JsonResolved 0 (JObj [])]))
     = [success_toast] \<and>
   button_label (run sample_grammar init
      (fill_in @ [SubmitTrigger, FetchResolved 0 200, JsonResolved 0 (JObj [])]))
     = MessageSent \<and>
   inputs (run sample_grammar init
      (fill_in @ [SubmitTrigger, FetchResolved 0 200, JsonResolved 0 (JObj [])])) Name = [] \<and>
   fullReport (run sample_grammar init
      (fill_in @ [SubmitTrigger, FetchResolved 0 200, JsonResolved 0 (JObj [])]))
     = Undefined"
  by (simp add: sample_defs schema_defs settle_defs)

lemma get_full_report_defined:
  "result \<noteq> Null \<Longrightarrow> result \<noteq> Undefined \<Longrightarrow> \<exists>v. get_full_report result = Inr v"
  by (cases result) (simp_all split: option.splits)

text \<open>
  C5, amended. When \<^verbatim>\<open>response.json()\<close> of a pending call rejects (the body is not
  JSON) or resolves with \<^verbatim>\<open>null\<close>, the call ends as a failed request does: the same
  error toast, \<^verbatim>\<open>isSubmitting\<close> reset, the form marked as submitted, nothing else
  changed. Every other value is
  taken as a success, whatever its shape: \<^verbatim>\<open>fullReport\<close> becomes the value of
  \<^verbatim>\<open>result.full_report\<close>, which is \<^verbatim>\<open>undefined\<close> for an object without that key, the
  success toast is raised, the form is reset and \<^verbatim>\<open>isSubmitted\<close> is set.
\<close>

theorem malformed_response_outcome:
  assumes "awaiting s i AwaitJson"
  shows "(e = JsonRejected i \<or> e = JsonResolved i Null \<longrightarrow>
            step G s e = s\<lparr>toasts := toasts s @ [error_toast], isSubmitting := False,
                            calls := (calls s)[i := Finished],
                            formState_isSubmitted := True\<rparr>) \<and>
         (result \<noteq> Null \<and> result \<noteq> Undefined \<longrightarrow>
            (\<exists>v. get_full_report result = Inr v \<and>
                 step G s (JsonResolved i result) =
                   s\<lparr>fullReport := v, toasts := toasts s @ [success_toast],
                     isSubmitted := True, inputs := (\<lambda>f. []), errors := Map.empty,
                     timers := timers s @ [3000], isSubmitting := False,
                     calls := (calls s)[i := Finished], formState_isSubmitted := True\<rparr>)) \<and>
         (map_of kvs (lit ''full_report'') = None \<longrightarrow>
            get_full_report (JObj kvs) = Inr Undefined)"
proof -
  have failure: "step G s e = s\<lparr>toasts := toasts s @ [error_toast], isSubmitting := False,
                            calls := (calls s)[i := Finished],
                            formState_isSubmitted := True\<rparr>"
    if "e = JsonRejected i \<or> e = JsonResolved i Null"
    using assms that by (rule step_json_failed)
  have success: "\<exists>v. get_full_report result = Inr v \<and>
                 step G s (JsonResolved i result) =
                   s\<lparr>fullReport := v, toasts := toasts s @ [success_toast],
                     isSubmitted := True, inputs := (\<lambda>f. []), errors := Map.empty,
                     timers := timers s @ [3000], isSubmitting := False,
                     calls := (calls s)[i := Finished], formState_isSubmitted := True\<rparr>"
    if "result \<noteq> Null" "result \<noteq> Undefined"
  proof -
    from that obtain v where v: "get_full_report result = Inr v"
      using get_full_report_defined by blast
    with step_json_ok [OF assms v, of G] show ?thesis by blast
  qed
  have missing: "get_full_report (JObj kvs) = Inr Undefined"
    if "map_of kvs (lit ''full_report'') = None"
    using that by simp
  show ?thesis
    using failure success missing by blast
qed

theorem malformed_response_outcome_witness:
  "awaiting (run sample_grammar init (fill_in @ [SubmitTrigger, FetchResolved 0 200])) 0 AwaitJson \<and>
   toasts (run sample_grammar init
      (fill_in @ [SubmitTrigger, FetchResolved 0 200, JsonRejected 0])) = [error_toast] \<and>
   toasts (run sample_grammar init
      (fill_in @ [SubmitTrigger, FetchResolved 0 200, JsonResolved 0 (JObj [])]))
     = [success_toast]"
  using malformed_response_outcome
    [of "run sample_grammar init (fill_in @ [SubmitTrigger, FetchResolved 0 200])" 0
        "JsonRejected 0" sample_grammar "JObj []" "[]"]
  by (simp add: sample_defs schema_defs settle_defs)

subsection \<open>The end of every call\<close>

lemma catch_finally_no_throw: "snd (catch_finally p) \<noteq> Thrown x"
proof (cases p)
  case (Pair s q)
  then show ?thesis by (cases q) simp_all
qed

text \<open>
  C9. Whenever a call of \<^verbatim>\<open>onSubmit\<close> comes to its end, by a rejected request, a
  status outside 200 to 299, a body that is not JSON, or a parsed body of any shape, the
  call is finished with \<^verbatim>\<open>isSubmitting\<close> reset and nothing thrown to its caller: the
  \<^verbatim>\<open>try\<close> statement never ends by a throw.
\<close>

theorem onSubmit_always_settles:
  assumes "awaiting s i AwaitFetch \<and>
             (e = FetchRejected i \<or> (e = FetchResolved i status \<and> \<not> response_ok status)) \<or>
           awaiting s i AwaitJson \<and> (e = JsonRejected i \<or> e = JsonResolved i result)"
  shows "calls (step G s e) ! i = Finished \<and>
         \<not> isSubmitting (step G s e) \<and>
         unhandled (step G s e) = unhandled s \<and>
         (\<forall>p x. snd (catch_finally p) \<noteq> Thrown x)"
proof -
  from assms consider
      (fetch) "awaiting s i AwaitFetch"
        "e = FetchRejected i \<or> (e = FetchResolved i status \<and> \<not> response_ok status)"
    | (json_rejected) "awaiting s i AwaitJson" "e = JsonRejected i"
    | (json_resolved) "awaiting s i AwaitJson" "e = JsonResolved i result"
    by blast
  then have "calls (step G s e) ! i = Finished \<and> \<not> isSubmitting (step G s e) \<and>
        unhandled (step G s e) = unhandled s"
  proof cases
    case fetch
    show ?thesis
      unfolding step_fetch_failed [OF fetch] using fetch(1) by (simp add: awaiting_def)
  next
    case json_rejected
    then have "e = JsonRejected i \<or> e = JsonResolved i Null" by simp
    note st = step_json_failed [OF json_rejected(1) this]
    show ?thesis
      unfolding st using json_rejected(1) by (simp add: awaiting_def)
  next
    case json_resolved
    show ?thesis
    proof (cases "get_full_report result")
      case (Inl x)
      with json_resolved show ?thesis
        by (simp add: resume_def try_after_json_def catch_block_def finally_block_def
            awaiting_def)
    next
      case (Inr v)
      show ?thesis
        unfolding json_resolved(2) step_json_ok [OF json_resolved(1) Inr]
        using json_resolved(1) by (simp add: awaiting_def)
    qed
  qed
  then show ?thesis
    using catch_finally_no_throw by blast
qed

theorem onSubmit_always_settles_witness:
  "awaiting (run sample_grammar init (fill_in @ [SubmitTrigger])) 0 AwaitFetch \<and>
   calls (run sample_grammar init (fill_in @ [SubmitTrigger, FetchRejected 0])) = [Finished] \<and>
   \<not> isSubmitting (run sample_grammar init (fill_in @ [SubmitTrigger, FetchRejected 0])) \<and>
   unhandled (run sample_grammar init (fill_in @ [SubmitTrigger, FetchRejected 0])) = []"
  using onSubmit_always_settles
    [of "run sample_grammar init (fill_in @ [SubmitTrigger])" 0 "FetchRejected 0" 0 Null
        sample_grammar]
  by (simp add: sample_defs schema_defs settle_defs)

subsection \<open>The copy button\<close>

text \<open>
  C6. With a non-empty string stored in \<^verbatim>\<open>fullReport\<close>, so that the report section and
  its copy button are rendered, a click on the button passes exactly that string to
  \<^verbatim>\<open>writeText\<close>, and it is the content of the clipboard when the write is fulfilled.
\<close>

theorem copy_writes_report_verbatim:
  assumes "fullReport s = JStr r" and "r \<noteq> []"
  shows "clipboard (step G s (ClickCopy WriteFulfilled)) = Some (JStr r) \<and>
         (out \<noteq> ClipboardMissing \<longrightarrow>
            writeText_calls (step G s (ClickCopy out)) = writeText_calls s @ [JStr r])"
  using assms
  by (cases out) (simp_all add: getElementById_def copy_onClick_def js_or_def Let_def)

theorem copy_writes_report_verbatim_witness:
  "fullReport (run sample_grammar init first_success) = JStr (lit ''# Hello'') \<and>
   lit ''# Hello'' \<noteq> [] \<and>
   clipboard (run sample_grammar init (first_success @ [ClickCopy WriteFulfilled]))
     = Some (JStr (lit ''# Hello'')) \<and>
   writeText_calls (run sample_grammar init (first_success @ [ClickCopy WriteFulfilled]))
     = [JStr (lit ''# Hello'')]"
  using copy_writes_report_verbatim
    [of "run sample_grammar init first_success" "lit ''# Hello''" sample_grammar WriteFulfilled]
  by (simp add: sample_defs schema_defs settle_defs copy_onClick_def js_or_def)

text \<open>
  C7, as claimed, fails: when the host rejects the write, the confirmation toast is
  raised all the same, no error toast is, and the clipboard is not written.
\<close>

theorem copy_confirms_rejected_write:
  "toasts (run sample_grammar init (first_success @ [ClickCopy WriteRejected]))
     = [success_toast, copied_toast] \<and>
   clipboard (run sample_grammar init (first_success @ [ClickCopy WriteRejected])) = None"
  by (simp add: sample_defs schema_defs settle_defs copy_onClick_def js_or_def)

text \<open>
  C7, amended. A click on the copy button never raises an error toast. It raises the
  confirmation toast whenever \<^verbatim>\<open>writeText\<close> was called, whether the write is fulfilled
  or rejected. When \<^verbatim>\<open>navigator.clipboard\<close> is missing the handler throws a TypeError
  to its caller before any toast. The clipboard changes only when the write is
  fulfilled.
\<close>

theorem copy_toast_outcome:
  assumes "getElementById s \<noteq> None"
  shows "toasts (step G s (ClickCopy out)) =
           toasts s @ (if out = ClipboardMissing then [] else [copied_toast]) \<and>
         variant copied_toast = None \<and>
         (out = ClipboardMissing \<longrightarrow>
            unhandled (step G s (ClickCopy out)) = unhandled s @ [TypeError]) \<and>
         (clipboard (step G s (ClickCopy out)) \<noteq> clipboard s \<longrightarrow> out = WriteFulfilled)"
  using assms
  by (cases out) (simp_all add: copy_onClick_def copied_toast_def Let_def)

theorem copy_toast_outcome_witness:
  "getElementById (run sample_grammar init first_success) \<noteq> None \<and>
   toasts (run sample_grammar init (first_success @ [ClickCopy WriteRejected]))
     = [success_toast, copied_toast] \<and>
   toasts (run sample_grammar init (first_success @ [ClickCopy ClipboardMissing]))
     = [success_toast] \<and>
   unhandled (run sample_grammar init (first_success @ [ClickCopy ClipboardMissing]))
     = [TypeError]"
  using copy_toast_outcome [of "run sample_grammar init first_success" sample_grammar WriteRejected]
    copy_toast_outcome [of "run sample_grammar init first_success" sample_grammar ClipboardMissing]
  by (simp add: sample_defs schema_defs settle_defs copy_onClick_def js_or_def)

subsection \<open>The PDF export\<close>

text \<open>
  C10. When \<^verbatim>\<open>document.getElementById('report-section')\<close> finds no element,
  \<^verbatim>\<open>handleDownloadPDF\<close> returns at once: the state with all its logs (captures,
  downloads, toasts) is the one before. With an element it always captures it.
\<close>

theorem handleDownloadPDF_no_element:
  "handleDownloadPDF captured None s = s \<and>
   captures (handleDownloadPDF captured (Some el) s) = captures s @ [el]"
  by (simp add: handleDownloadPDF_def Let_def)

end
